theory Spec2Isabelle
  imports Complex_Main "HOL-Library.Word"
begin

section \<open>Paths and uploads\<close>

text \<open>
  The service of \<^verbatim>\<open>main.py\<close> keeps coffee rows in an SQLite table and the uploaded
  images in the directory \<^verbatim>\<open>uploads\<close>. Paths are Python strings; the two functions of
  \<^verbatim>\<open>os.path\<close> the handlers call are written out below in their POSIX form
  (\<^verbatim>\<open>posixpath.join\<close> with one component, \<^verbatim>\<open>posixpath.basename\<close>).
\<close>

type_synonym path = string
type_synonym bytes = "8 word list"

definition UPLOAD_DIR :: path where
  "UPLOAD_DIR = ''uploads''"

definition startswith_sep :: "path \<Rightarrow> bool" where
  "startswith_sep b = (case b of [] \<Rightarrow> False | c # _ \<Rightarrow> c = CHR ''/'')"

definition endswith_sep :: "path \<Rightarrow> bool" where
  "endswith_sep a = (case rev a of [] \<Rightarrow> False | c # _ \<Rightarrow> c = CHR ''/'')"

text \<open>
  \<^verbatim>\<open>os.path.join(a, b)\<close>: an absolute \<open>b\<close> replaces \<open>a\<close>; otherwise \<open>b\<close> is appended,
  with a separator unless \<open>a\<close> is empty or already ends with one.
\<close>

definition os_path_join :: "path \<Rightarrow> path \<Rightarrow> path" where
  "os_path_join a b =
     (if startswith_sep b then b
      else if a = [] \<or> endswith_sep a then a @ b
      else a @ ''/'' @ b)"

text \<open>\<^verbatim>\<open>os.path.basename(p)\<close>: everything after the last separator of \<open>p\<close>.\<close>

definition os_path_basename :: "path \<Rightarrow> path" where
  "os_path_basename p = rev (takeWhile (\<lambda>c. c \<noteq> CHR ''/'') (rev p))"

text \<open>
  An \<^verbatim>\<open>UploadFile\<close>: the file name the client sent and the bytes that
  \<^verbatim>\<open>image.file.read()\<close> returns.
\<close>

record UploadFile =
  filename :: string
  file_bytes :: bytes

section \<open>The data model\<close>

text \<open>
  \<^verbatim>\<open>CoffeeBase\<close> holds the ten form fields. The ORM class \<^verbatim>\<open>Coffee\<close> has these columns
  and \<^verbatim>\<open>image\<close> (the field is called \<open>image_field\<close> here, \<open>image\<close> being the image of a
  set in HOL); the primary key \<^verbatim>\<open>id\<close> is the key of the row in the table. A response
  object is a row together with its \<^verbatim>\<open>id\<close>. The handlers never compute with the two
  floating-point columns, they only store and return them, so their type is the
  parameter \<open>'f\<close>.
\<close>

record 'f CoffeeBase =
  coffeeName :: string
  coffeeType :: string
  rate :: 'f
  commentCount :: int
  price :: 'f
  isLiked :: bool
  desc :: string
  buyCount :: int
  coffeeShopLocation :: string
  coffeeAddress :: string

record 'f Coffee = "'f CoffeeBase" +
  image_field :: path

record 'f CoffeeResponse = "'f Coffee" +
  id_field :: int

text \<open>
  The parameters of \<^verbatim>\<open>update_coffee\<close>: every one is \<^verbatim>\<open>Optional\<close> with default
  \<^verbatim>\<open>None\<close>, and \<open>None\<close> stands for a parameter the request does not carry.
\<close>

record 'f CoffeeUpdate =
  upd_coffeeName :: "string option"
  upd_coffeeType :: "string option"
  upd_rate :: "'f option"
  upd_commentCount :: "int option"
  upd_price :: "'f option"
  upd_isLiked :: "bool option"
  upd_desc :: "string option"
  upd_buyCount :: "int option"
  upd_coffeeShopLocation :: "string option"
  upd_coffeeAddress :: "string option"
  upd_image :: "UploadFile option"

text \<open>
  What a handler can fail with: the \<^verbatim>\<open>HTTPException\<close> it raises itself, or the
  \<^verbatim>\<open>OSError\<close> that \<^verbatim>\<open>open\<close> raises and no handler catches.
\<close>

datatype http_error = HTTPException int string | OSError

section \<open>The world: files, table and effect log\<close>

text \<open>
  The state the handlers act on. \<open>files\<close> is the file system as a map from path strings
  to contents; paths are compared as strings. \<open>openable\<close> tells at which paths the
  environment lets a file be created or overwritten (the directory is there and can be
  written, the path is not a directory); no handler makes or removes a directory, so
  no handler changes it. \<open>rows\<close> is the table in insertion order, \<open>next_id\<close> the
  next primary key. \<open>trace\<close> logs each effect on the file system and on the table in
  the order in which the handler performs it.
\<close>

datatype event =
  FileWrite path
  | FileRemove path
  | DbInsert int
  | DbUpdate int
  | DbDelete int

record 'f world =
  files :: "path \<rightharpoonup> bytes"
  openable :: "path \<Rightarrow> bool"
  rows :: "(int \<times> 'f Coffee) list"
  next_id :: int
  trace :: "event list"

text \<open>
  \<^verbatim>\<open>with open(p, "wb") as f: f.write(b)\<close>. \<^verbatim>\<open>open\<close> raises for the empty path and for a
  path that ends with a separator, whatever the environment, and wherever the
  environment does not let the file be opened; nothing is written then.
\<close>

definition open_wb_ok :: "path \<Rightarrow> 'f world \<Rightarrow> bool" where
  "open_wb_ok p w = (p \<noteq> [] \<and> \<not> endswith_sep p \<and> openable w p)"

definition fs_write :: "path \<Rightarrow> bytes \<Rightarrow> 'f world \<Rightarrow> http_error + 'f world" where
  "fs_write p b w =
     (if open_wb_ok p w
      then Inr (w\<lparr>files := (files w)(p \<mapsto> b), trace := trace w @ [FileWrite p]\<rparr>)
      else Inl OSError)"

definition os_path_exists :: "path \<Rightarrow> 'f world \<Rightarrow> bool" where
  "os_path_exists p w = (files w p \<noteq> None)"

definition os_remove :: "path \<Rightarrow> 'f world \<Rightarrow> 'f world" where
  "os_remove p w = w\<lparr>files := (files w)(p := None), trace := trace w @ [FileRemove p]\<rparr>"

subsection \<open>The storage adapter\<close>

text \<open>
  The ORM \<^verbatim>\<open>abarorm\<close> behind \<^verbatim>\<open>Coffee.get\<close>, \<^verbatim>\<open>Coffee.all\<close>, \<^verbatim>\<open>save\<close> and
  \<^verbatim>\<open>Coffee.delete\<close> is a library and not part of the source; the five operations below
  follow the spec's storage adapter. The table is a list of rows, each with its primary
  key. A primary key is unique, so the row an update rewrites is the first with that key.
\<close>

fun table_update :: "int \<Rightarrow> 'v \<Rightarrow> (int \<times> 'v) list \<Rightarrow> (int \<times> 'v) list" where
  "table_update k v [] = []"
| "table_update k v (p # ps) = (if fst p = k then (k, v) # ps else p # table_update k v ps)"

definition table_delete :: "int \<Rightarrow> (int \<times> 'v) list \<Rightarrow> (int \<times> 'v) list" where
  "table_delete k ps = filter (\<lambda>p. fst p \<noteq> k) ps"

text \<open>
  Modelled from the spec: \<^verbatim>\<open>Coffee.get(id=...)\<close> of the ORM is missing. The spec's
  \<open>getById\<close> "returns the record or an absent signal; never throws for not found".
  An ORM object is true in \<^verbatim>\<open>if not coffee\<close>, so that test is \<open>Coffee_get i w = None\<close>.
\<close>

definition Coffee_get :: "int \<Rightarrow> 'f world \<Rightarrow> 'f Coffee option" where
  "Coffee_get i w = map_of (rows w) i"

text \<open>
  Modelled from the spec: \<^verbatim>\<open>Coffee.all()\<close> of the ORM is missing. The spec's \<open>listAll\<close>
  "returns all records".
\<close>

definition Coffee_all :: "'f world \<Rightarrow> (int \<times> 'f Coffee) list" where
  "Coffee_all w = rows w"

text \<open>
  Modelled from the spec: \<^verbatim>\<open>save()\<close> of the ORM on an object without \<^verbatim>\<open>id\<close> is missing.
  The spec's \<open>create\<close> "inserts a new row, assigns identifier, returns the full record
  including identifier", and the identifier "is unique and strictly increases in
  assignment order": it is taken from a counter that only grows.
\<close>

definition save_new :: "'f Coffee \<Rightarrow> 'f world \<Rightarrow> int \<times> 'f world" where
  "save_new c w =
     (next_id w,
      w\<lparr>rows := rows w @ [(next_id w, c)],
        next_id := next_id w + 1,
        trace := trace w @ [DbInsert (next_id w)]\<rparr>)"

text \<open>
  Modelled from the spec: \<^verbatim>\<open>save()\<close> of the ORM on an object that \<^verbatim>\<open>Coffee.get\<close> returned
  is missing. The spec's \<open>update\<close> "persists the current in-memory record state for that
  id"; a row that is not there is not created.
\<close>

definition save_existing :: "int \<Rightarrow> 'f Coffee \<Rightarrow> 'f world \<Rightarrow> 'f world" where
  "save_existing i c w =
     w\<lparr>rows := table_update i c (rows w), trace := trace w @ [DbUpdate i]\<rparr>"

text \<open>
  Modelled from the spec: \<^verbatim>\<open>Coffee.delete(id=...)\<close> of the ORM is missing. The spec's
  \<open>deleteById\<close> "removes the row".
\<close>

definition Coffee_delete :: "int \<Rightarrow> 'f world \<Rightarrow> 'f world" where
  "Coffee_delete i w =
     w\<lparr>rows := table_delete i (rows w), trace := trace w @ [DbDelete i]\<rparr>"

section \<open>The handlers\<close>

definition with_id :: "int \<Rightarrow> 'f Coffee \<Rightarrow> 'f CoffeeResponse" where
  "with_id i c = Coffee.extend c (CoffeeResponse.fields i)"

text \<open>
  \<^verbatim>\<open>POST /coffees/\<close>: save the upload, build the object, save it, return it; when
  \<^verbatim>\<open>open\<close> raises, nothing after it runs. The
  dictionary \<^verbatim>\<open>coffee_data\<close> holds the ten form values and \<^verbatim>\<open>image_path\<close> under
  \<^verbatim>\<open>image\<close>: the form extended by the image field.
\<close>

definition create_coffee ::
  "'f CoffeeBase \<Rightarrow> UploadFile \<Rightarrow> 'f world \<Rightarrow> (http_error + 'f CoffeeResponse) \<times> 'f world" where
  "create_coffee form upload w =
     (let image_path = os_path_join UPLOAD_DIR (filename upload)
      in case fs_write image_path (file_bytes upload) w of
           Inl e \<Rightarrow> (Inl e, w)
         | Inr w1 \<Rightarrow>
             (let coffee_obj = CoffeeBase.extend form (Coffee.fields image_path);
                  (new_id, w2) = save_new coffee_obj w1
              in (Inr (with_id new_id coffee_obj), w2)))"

text \<open>\<^verbatim>\<open>GET /coffees/\<close>: all rows as stored.\<close>

definition list_coffees :: "'f world \<Rightarrow> 'f CoffeeResponse list \<times> 'f world" where
  "list_coffees w = (map (\<lambda>(i, c). with_id i c) (Coffee_all w), w)"

text \<open>
  \<^verbatim>\<open>GET /coffees/{coffee_id}\<close>: the object that \<^verbatim>\<open>Coffee.get\<close> built is changed in
  memory and returned; it is not saved.
\<close>

definition get_coffee ::
  "int \<Rightarrow> 'f world \<Rightarrow> (http_error + 'f CoffeeResponse) \<times> 'f world" where
  "get_coffee coffee_id w =
     (case Coffee_get coffee_id w of
        None \<Rightarrow> (Inl (HTTPException 404 ''Coffee not found''), w)
      | Some coffee \<Rightarrow>
          (let coffee_dict =
                 coffee\<lparr>image_field := ''/uploads/'' @ os_path_basename (image_field coffee)\<rparr>
           in (Inr (with_id coffee_id coffee_dict), w)))"

text \<open>
  \<^verbatim>\<open>PUT /coffees/{coffee_id}\<close>. Each \<^verbatim>\<open>if x is not None: coffee.x = x\<close> is one step of
  \<open>apply_fields\<close>, in the order of the source. An \<^verbatim>\<open>UploadFile\<close> is always true in
  \<^verbatim>\<open>if image:\<close>, so that test is \<open>upd_image req \<noteq> None\<close>. When \<^verbatim>\<open>open\<close> raises,
  the changed object is never saved.
\<close>

definition apply_fields :: "'f CoffeeUpdate \<Rightarrow> 'f Coffee \<Rightarrow> 'f Coffee" where
  "apply_fields req coffee =
     (let c1 = (case upd_coffeeName req of None \<Rightarrow> coffee | Some v \<Rightarrow> coffee\<lparr>coffeeName := v\<rparr>);
          c2 = (case upd_coffeeType req of None \<Rightarrow> c1 | Some v \<Rightarrow> c1\<lparr>coffeeType := v\<rparr>);
          c3 = (case upd_rate req of None \<Rightarrow> c2 | Some v \<Rightarrow> c2\<lparr>rate := v\<rparr>);
          c4 = (case upd_commentCount req of None \<Rightarrow> c3 | Some v \<Rightarrow> c3\<lparr>commentCount := v\<rparr>);
          c5 = (case upd_price req of None \<Rightarrow> c4 | Some v \<Rightarrow> c4\<lparr>price := v\<rparr>);
          c6 = (case upd_isLiked req of None \<Rightarrow> c5 | Some v \<Rightarrow> c5\<lparr>isLiked := v\<rparr>);
          c7 = (case upd_desc req of None \<Rightarrow> c6 | Some v \<Rightarrow> c6\<lparr>desc := v\<rparr>);
          c8 = (case upd_buyCount req of None \<Rightarrow> c7 | Some v \<Rightarrow> c7\<lparr>buyCount := v\<rparr>);
          c9 = (case upd_coffeeShopLocation req of None \<Rightarrow> c8
                | Some v \<Rightarrow> c8\<lparr>coffeeShopLocation := v\<rparr>)
      in (case upd_coffeeAddress req of None \<Rightarrow> c9 | Some v \<Rightarrow> c9\<lparr>coffeeAddress := v\<rparr>))"

definition update_coffee ::
  "int \<Rightarrow> 'f CoffeeUpdate \<Rightarrow> 'f world \<Rightarrow> (http_error + 'f CoffeeResponse) \<times> 'f world" where
  "update_coffee coffee_id req w =
     (case Coffee_get coffee_id w of
        None \<Rightarrow> (Inl (HTTPException 404 ''Coffee not found''), w)
      | Some coffee0 \<Rightarrow>
          (let coffee1 = apply_fields req coffee0;
               handled =
                 (case upd_image req of
                    None \<Rightarrow> Inr (coffee1, w)
                  | Some upload \<Rightarrow>
                      (let image_path = os_path_join UPLOAD_DIR (filename upload)
                       in case fs_write image_path (file_bytes upload) w of
                            Inl e \<Rightarrow> Inl e
                          | Inr w' \<Rightarrow> Inr (coffee1\<lparr>image_field := image_path\<rparr>, w')))
           in case handled of
                Inl e \<Rightarrow> (Inl e, w)
              | Inr (coffee, w1) \<Rightarrow>
                  (let w2 = save_existing coffee_id coffee w1;
                       coffee_dict =
                         coffee\<lparr>image_field :=
                           ''/uploads/'' @ os_path_basename (image_field coffee)\<rparr>
                   in (Inr (with_id coffee_id coffee_dict), w2))))"

text \<open>\<^verbatim>\<open>DELETE /coffees/{coffee_id}\<close>: remove the image if it is there, then the row.\<close>

definition delete_coffee ::
  "int \<Rightarrow> 'f world \<Rightarrow> (http_error + (string \<times> string) list) \<times> 'f world" where
  "delete_coffee coffee_id w =
     (case Coffee_get coffee_id w of
        None \<Rightarrow> (Inl (HTTPException 404 ''Coffee not found''), w)
      | Some coffee \<Rightarrow>
          (let w1 = (if os_path_exists (image_field coffee) w
                     then os_remove (image_field coffee) w else w);
               w2 = Coffee_delete coffee_id w1
           in (Inr [(''detail'', ''Coffee deleted successfully'')], w2)))"

section \<open>A process lifetime\<close>

text \<open>
  The application serves requests one after the other. \<open>handle\<close> dispatches a request
  to its handler and reports the identifier a successful create returns; \<open>created_ids\<close> collects
  these identifiers over a sequence of requests, in the order of creation, and
  \<open>run\<close> is the world after the sequence.
\<close>

datatype 'f request =
  Create "'f CoffeeBase" UploadFile
  | ListAll
  | Get int
  | Update int "'f CoffeeUpdate"
  | Delete int

fun handle :: "'f request \<Rightarrow> 'f world \<Rightarrow> int option \<times> 'f world" where
  "handle (Create form upload) w =
     (case create_coffee form upload w of
        (Inl e, w') \<Rightarrow> (None, w')
      | (Inr r, w') \<Rightarrow> (Some (id_field r), w'))"
| "handle ListAll w = (None, snd (list_coffees w))"
| "handle (Get i) w = (None, snd (get_coffee i w))"
| "handle (Update i req) w = (None, snd (update_coffee i req w))"
| "handle (Delete i) w = (None, snd (delete_coffee i w))"

fun run :: "'f request list \<Rightarrow> 'f world \<Rightarrow> 'f world" where
  "run [] w = w"
| "run (q # qs) w = run qs (snd (handle q w))"

fun created_ids :: "'f request list \<Rightarrow> 'f world \<Rightarrow> int list" where
  "created_ids [] w = []"
| "created_ids (q # qs) w =
     (case handle q w of
        (Some i, w') \<Rightarrow> i # created_ids qs w'
      | (None, w') \<Rightarrow> created_ids qs w')"

text \<open>
  What the storage engine maintains: the primary keys of the rows are distinct and
  all below the counter. The empty table of a fresh database satisfies it.
\<close>

definition keys_of :: "'f world \<Rightarrow> int set" where
  "keys_of w = fst ` set (rows w)"

definition pk_invariant :: "'f world \<Rightarrow> bool" where
  "pk_invariant w = (distinct (map fst (rows w)) \<and> (\<forall>k \<in> keys_of w. k < next_id w))"

text \<open>
  \<open>child_of d p\<close>: the path \<open>p\<close> is \<open>d\<close>, a separator and one name, and the name is
  neither \<^verbatim>\<open>.\<close> nor \<^verbatim>\<open>..\<close>.
\<close>

definition child_of :: "path \<Rightarrow> path \<Rightarrow> bool" where
  "child_of d p =
     (let n = drop (length d + 1) p
      in take (length d + 1) p = d @ ''/'' \<and> n \<noteq> [] \<and> CHR ''/'' \<notin> set n
         \<and> n \<noteq> ''.'' \<and> n \<noteq> ''..'')"

text \<open>
  A fresh database and the empty directory \<^verbatim>\<open>uploads\<close> that
  \<^verbatim>\<open>os.makedirs(UPLOAD_DIR, exist_ok=True)\<close> made; files can be created in it and in
  \<^verbatim>\<open>/tmp\<close>. In \<open>root_world\<close> there is a directory \<^verbatim>\<open>/uploads\<close> as well.
\<close>

definition fresh_world :: "real world" where
  "fresh_world =
     \<lparr>files = Map.empty,
      openable = (\<lambda>p. child_of ''uploads'' p \<or> child_of ''/tmp'' p),
      rows = [], next_id = 1, trace = []\<rparr>"

definition root_world :: "real world" where
  "root_world =
     fresh_world\<lparr>openable :=
       (\<lambda>p. child_of ''uploads'' p \<or> child_of ''/tmp'' p \<or> child_of ''/uploads'' p)\<rparr>"

section \<open>Example data\<close>

text \<open>The request that carries no parameter: every parameter has its default.\<close>

definition no_fields :: "'f CoffeeUpdate" where
  "no_fields = \<lparr>upd_coffeeName = None, upd_coffeeType = None, upd_rate = None,
     upd_commentCount = None, upd_price = None, upd_isLiked = None, upd_desc = None,
     upd_buyCount = None, upd_coffeeShopLocation = None, upd_coffeeAddress = None,
     upd_image = None\<rparr>"

text \<open>
  A latte posted to a fresh database with the file \<^verbatim>\<open>latte.png\<close>, the requests used on
  it, files whose names are the absolute paths \<^verbatim>\<open>/uploads/latte.png\<close> and
  \<^verbatim>\<open>/tmp/x.png\<close>, and a file with the empty name.
\<close>

definition latte :: "real CoffeeBase" where
  "latte = \<lparr>coffeeName = ''Latte'', coffeeType = ''Espresso'', rate = 4, commentCount = 0,
     price = 9 / 2, isLiked = False, desc = [], buyCount = 0,
     coffeeShopLocation = ''Tehran'', coffeeAddress = ''Valiasr''\<rparr>"

definition latte_png :: UploadFile where
  "latte_png = \<lparr>filename = ''latte.png'', file_bytes = [137, 80, 78, 71]\<rparr>"

definition mocha_png :: UploadFile where
  "mocha_png = \<lparr>filename = ''mocha.png'', file_bytes = [255, 216]\<rparr>"

definition abs_png :: UploadFile where
  "abs_png = \<lparr>filename = ''/uploads/latte.png'', file_bytes = [137, 80, 78, 71]\<rparr>"

definition absolute_row :: "real Coffee" where
  "absolute_row = CoffeeBase.extend latte (Coffee.fields ''/uploads/latte.png'')"

definition absolute_latte :: "real world" where
  "absolute_latte = snd (create_coffee latte abs_png root_world)"


definition unnamed_png :: UploadFile where
  "unnamed_png = \<lparr>filename = [], file_bytes = [137, 80, 78, 71]\<rparr>"

definition latte_row :: "real Coffee" where
  "latte_row = CoffeeBase.extend latte (Coffee.fields ''uploads/latte.png'')"

definition one_latte :: "real world" where
  "one_latte = snd (create_coffee latte latte_png fresh_world)"

definition only_rate :: "real CoffeeUpdate" where
  "only_rate = no_fields\<lparr>upd_rate := Some 5\<rparr>"




definition lifetime :: "real request list" where
  "lifetime =
     [Create latte latte_png, Delete 1, Get 1, Create latte unnamed_png,
      Create latte mocha_png]"

section \<open>Records, tables and paths\<close>

lemma id_field_with_id [simp]: "id_field (with_id i c) = i"
  by (simp add: with_id_def Coffee.defs CoffeeResponse.defs)

lemma truncate_with_id [simp]: "Coffee.truncate (with_id i c) = c"
  by (simp add: with_id_def Coffee.defs CoffeeResponse.defs)

lemma image_field_with_id [simp]: "image_field (with_id i c) = image_field c"
  by (simp add: with_id_def Coffee.defs CoffeeResponse.defs)

lemma image_field_new_object [simp]:
  "image_field (CoffeeBase.extend form (Coffee.fields p)) = p"
  by (simp add: CoffeeBase.defs Coffee.defs)

lemma truncate_new_object [simp]:
  "CoffeeBase.truncate (CoffeeBase.extend form (Coffee.fields p)) = form"
  by (simp add: CoffeeBase.defs Coffee.defs)

lemma map_of_table_update:
  "map_of (table_update k v ps) j =
     (if j = k \<and> map_of ps k \<noteq> None then Some v else map_of ps j)"
  by (induction ps) auto

lemma table_update_same: "map_of ps k = Some v \<Longrightarrow> table_update k v ps = ps"
  by (induction ps) (auto split: if_splits)

lemma keys_table_update [simp]: "map fst (table_update k v ps) = map fst ps"
  by (induction ps) auto


lemma keys_table_delete:
  "map fst (table_delete k ps) = filter (\<lambda>j. j \<noteq> k) (map fst ps)"
  by (induction ps) (auto simp: table_delete_def)

lemma takeWhile_stops:
  "(\<And>x. x \<in> set xs \<Longrightarrow> P x) \<Longrightarrow> \<not> P y \<Longrightarrow> takeWhile P (xs @ y # ys) = xs"
  by (induction xs) auto

lemma basename_no_sep: "CHR ''/'' \<notin> set (os_path_basename p)"
proof -
  have "\<forall>c \<in> set (takeWhile (\<lambda>c. c \<noteq> CHR ''/'') (rev p)). c \<noteq> CHR ''/''"
    using set_takeWhileD by fastforce
  then show ?thesis by (auto simp: os_path_basename_def)
qed

lemma basename_after_sep:
  assumes "CHR ''/'' \<notin> set b"
  shows "os_path_basename (d @ ''/'' @ b) = b"
proof -
  have "takeWhile (\<lambda>c. c \<noteq> CHR ''/'') (rev b @ CHR ''/'' # rev d) = rev b"
    using assms by (intro takeWhile_stops) auto
  then show ?thesis by (simp add: os_path_basename_def)
qed

lemma public_url_is_raw_iff:
  "(''/uploads/'' @ os_path_basename p = p) =
   (\<exists>b. p = ''/uploads/'' @ b \<and> CHR ''/'' \<notin> set b)"
proof
  assume "''/uploads/'' @ os_path_basename p = p"
  then have "p = ''/uploads/'' @ os_path_basename p" by simp
  with basename_no_sep [of p] show "\<exists>b. p = ''/uploads/'' @ b \<and> CHR ''/'' \<notin> set b"
    by blast
next
  assume "\<exists>b. p = ''/uploads/'' @ b \<and> CHR ''/'' \<notin> set b"
  then obtain b where p: "p = ''/uploads/'' @ b" and b: "CHR ''/'' \<notin> set b" by blast
  from basename_after_sep [OF b, of "''/uploads''"] p
  show "''/uploads/'' @ os_path_basename p = p" by simp
qed

text \<open>A file name that is not absolute is stored below the upload directory.\<close>

lemma join_relative:
  "\<not> startswith_sep b \<Longrightarrow> os_path_join UPLOAD_DIR b = ''uploads/'' @ b"
  by (simp add: os_path_join_def UPLOAD_DIR_def endswith_sep_def)

lemma join_upload_dir:
  "os_path_join UPLOAD_DIR b = (if startswith_sep b then b else UPLOAD_DIR @ ''/'' @ b)"
  by (simp add: os_path_join_def UPLOAD_DIR_def endswith_sep_def)

lemma get_coffee_world: "snd (get_coffee i w) = w"
  by (simp add: get_coffee_def Let_def split: option.splits)

lemma create_coffee_eq:
  "create_coffee form upload w =
     (if open_wb_ok (os_path_join UPLOAD_DIR (filename upload)) w
      then
        (Inr (with_id (next_id w)
           (CoffeeBase.extend form (Coffee.fields (os_path_join UPLOAD_DIR (filename upload))))),
         w\<lparr>files := (files w)(os_path_join UPLOAD_DIR (filename upload) \<mapsto> file_bytes upload),
           rows := rows w @
             [(next_id w,
               CoffeeBase.extend form
                 (Coffee.fields (os_path_join UPLOAD_DIR (filename upload))))],
           next_id := next_id w + 1,
           trace := trace w @
             [FileWrite (os_path_join UPLOAD_DIR (filename upload)), DbInsert (next_id w)]\<rparr>)
      else (Inl OSError, w))"
  by (simp add: create_coffee_def Let_def fs_write_def save_new_def)

lemma update_coffee_found:
  assumes "map_of (rows w) i = Some c0"
  shows "update_coffee i req w =
    (case upd_image req of
       None \<Rightarrow>
         (Inr (with_id i ((apply_fields req c0)
                 \<lparr>image_field := ''/uploads/'' @ os_path_basename (image_field (apply_fields req c0))\<rparr>)),
          w\<lparr>rows := table_update i (apply_fields req c0) (rows w),
            trace := trace w @ [DbUpdate i]\<rparr>)
     | Some u \<Rightarrow>
         (if open_wb_ok (os_path_join UPLOAD_DIR (filename u)) w
          then
            (Inr (with_id i ((apply_fields req c0)
                    \<lparr>image_field :=
                       ''/uploads/'' @ os_path_basename (os_path_join UPLOAD_DIR (filename u))\<rparr>)),
             w\<lparr>files := (files w)(os_path_join UPLOAD_DIR (filename u) \<mapsto> file_bytes u),
               rows := table_update i
                 ((apply_fields req c0)\<lparr>image_field := os_path_join UPLOAD_DIR (filename u)\<rparr>)
                 (rows w),
               trace := trace w @
                 [FileWrite (os_path_join UPLOAD_DIR (filename u)), DbUpdate i]\<rparr>)
          else (Inl OSError, w)))"
  using assms
  by (simp add: update_coffee_def Coffee_get_def Let_def save_existing_def fs_write_def
      split: option.splits)

lemma update_coffee_stored:
  assumes "map_of (rows w) i = Some c0" and "fst (update_coffee i req w) = Inr r"
  shows "map_of (rows (snd (update_coffee i req w))) i =
    Some (case upd_image req of
            None \<Rightarrow> apply_fields req c0
          | Some u \<Rightarrow> (apply_fields req c0)\<lparr>image_field := os_path_join UPLOAD_DIR (filename u)\<rparr>)"
  using assms
  by (auto simp: update_coffee_found [OF assms(1)] map_of_table_update
      split: option.splits if_splits)

lemma update_coffee_response_image:
  assumes "map_of (rows w) i = Some c0" and "fst (update_coffee i req w) = Inr r"
  shows "image_field r = ''/uploads/'' @ os_path_basename (image_field
    (case upd_image req of
            None \<Rightarrow> apply_fields req c0
          | Some u \<Rightarrow> (apply_fields req c0)\<lparr>image_field := os_path_join UPLOAD_DIR (filename u)\<rparr>))"
  using assms(2)
  by (auto simp: update_coffee_found [OF assms(1)] split: option.splits if_splits)


lemma apply_no_fields [simp]: "apply_fields no_fields c = c"
  by (simp add: apply_fields_def no_fields_def)

lemma open_latte_png: "open_wb_ok ''uploads/latte.png'' fresh_world"
  by (simp add: open_wb_ok_def endswith_sep_def fresh_world_def child_of_def)

lemma open_mocha_png: "open_wb_ok ''uploads/mocha.png'' w = openable w ''uploads/mocha.png''"
  by (simp add: open_wb_ok_def endswith_sep_def)


lemma open_unnamed: "\<not> open_wb_ok (os_path_join UPLOAD_DIR []) w"
proof -
  have "os_path_join UPLOAD_DIR [] = ''uploads/''"
    by (simp add: os_path_join_def UPLOAD_DIR_def startswith_sep_def endswith_sep_def)
  then show ?thesis by (simp add: open_wb_ok_def endswith_sep_def)
qed

lemma one_latte_eq:
  "one_latte = fresh_world\<lparr>files := [''uploads/latte.png'' \<mapsto> [137, 80, 78, 71]],
     rows := [(1, latte_row)], next_id := 2,
     trace := [FileWrite ''uploads/latte.png'', DbInsert 1]\<rparr>"
proof -
  have p: "os_path_join UPLOAD_DIR (filename latte_png) = ''uploads/latte.png''"
    by (simp add: latte_png_def join_relative startswith_sep_def)
  show ?thesis
    by (simp add: one_latte_def create_coffee_eq p open_latte_png latte_row_def)
       (simp add: fresh_world_def latte_png_def)
qed

lemma one_latte_fields:
  "rows one_latte = [(1, latte_row)]"
  "next_id one_latte = 2"
  "files one_latte = [''uploads/latte.png'' \<mapsto> [137, 80, 78, 71]]"
  "trace one_latte = [FileWrite ''uploads/latte.png'', DbInsert 1]"
  "openable one_latte = openable fresh_world"
  by (simp_all add: one_latte_eq)

lemma basename_latte: "os_path_basename ''uploads/latte.png'' = ''latte.png''"
  by (simp add: os_path_basename_def)

section \<open>Absent identifiers\<close>

text \<open>
  C2. For every identifier, each of get-by-id, update-by-id and delete-by-id fails with
  HTTP 404 and detail "Coffee not found" exactly when the table holds no row with that
  identifier. When the row exists, get and delete do not fail at all, and update fails
  only when the file of the request cannot be opened.
\<close>

theorem not_found_iff_absent:
  "(fst (get_coffee i w) = Inl (HTTPException 404 ''Coffee not found''))
      = (map_of (rows w) i = None)
   \<and> isl (fst (get_coffee i w)) = (map_of (rows w) i = None)
   \<and> (fst (update_coffee i req w) = Inl (HTTPException 404 ''Coffee not found''))
      = (map_of (rows w) i = None)
   \<and> isl (fst (update_coffee i req w))
      = (map_of (rows w) i = None
         \<or> (\<exists>u. upd_image req = Some u
               \<and> \<not> open_wb_ok (os_path_join UPLOAD_DIR (filename u)) w))
   \<and> (fst (delete_coffee i w) = Inl (HTTPException 404 ''Coffee not found''))
      = (map_of (rows w) i = None)
   \<and> isl (fst (delete_coffee i w)) = (map_of (rows w) i = None)"
proof (cases "map_of (rows w) i")
  case None
  then show ?thesis
    by (simp add: get_coffee_def update_coffee_def delete_coffee_def Coffee_get_def)
next
  case (Some c)
  have "isl (fst (update_coffee i req w))
      = (\<exists>u. upd_image req = Some u \<and> \<not> open_wb_ok (os_path_join UPLOAD_DIR (filename u)) w)"
    and "fst (update_coffee i req w) \<noteq> Inl (HTTPException 404 ''Coffee not found'')"
    by (simp_all add: update_coffee_found [OF Some] split: option.splits)
  with Some show ?thesis
    by (simp add: get_coffee_def delete_coffee_def Coffee_get_def Let_def)
qed

text \<open>
  C8. For an identifier with no row, delete-by-id answers 404 and returns the world as
  it was: files, table, counter and effect log are all unchanged.
\<close>

theorem delete_missing_no_effect:
  assumes "map_of (rows w) i = None"
  shows "delete_coffee i w = (Inl (HTTPException 404 ''Coffee not found''), w)"
  using assms by (simp add: delete_coffee_def Coffee_get_def)

theorem delete_missing_no_effect_witness:
  "map_of (rows one_latte) 7 = None
   \<and> delete_coffee 7 one_latte = (Inl (HTTPException 404 ''Coffee not found''), one_latte)"
proof -
  have h: "map_of (rows one_latte) 7 = None"
    by (simp add: one_latte_eq)
  from delete_missing_no_effect [OF h] h show ?thesis by simp
qed

section \<open>Reading\<close>

text \<open>
  C10. get-by-id is read-only: for every world and identifier, present or not, the
  world after get-by-id is the world before it (every row, every file, the counter),
  and no effect is logged.
\<close>

theorem get_coffee_read_only: "snd (get_coffee i w) = w"
  by (simp add: get_coffee_def Let_def split: option.splits)

section \<open>Creating and listing\<close>




text \<open>
  C4 states that the image field of a create or list response has the form of the
  upload directory, a separator and the file name, and is not the public URL form. A
  latte posted with a file named \<^verbatim>\<open>/uploads/latte.png\<close>, where \<^verbatim>\<open>/uploads\<close> is a
  directory, comes back from create and from list with the image
  \<^verbatim>\<open>/uploads/latte.png\<close>: this is \<^verbatim>\<open>/uploads/\<close> and the basename, and it is not the
  upload directory joined with the file name by a separator.
\<close>

theorem raw_path_counterexample:
  "fst (create_coffee latte abs_png root_world) = Inr (with_id 1 absolute_row)
   \<and> fst (list_coffees absolute_latte) = [with_id 1 absolute_row]
   \<and> image_field (with_id 1 absolute_row)
       = ''/uploads/'' @ os_path_basename (image_field absolute_row)
   \<and> image_field (with_id 1 absolute_row) \<noteq> UPLOAD_DIR @ ''/'' @ filename abs_png"
proof -
  have p: "os_path_join UPLOAD_DIR (filename abs_png) = ''/uploads/latte.png''"
    by (simp add: join_upload_dir abs_png_def startswith_sep_def)
  have o: "open_wb_ok ''/uploads/latte.png'' root_world"
    by (simp add: open_wb_ok_def endswith_sep_def root_world_def child_of_def)
  have n: "next_id root_world = 1" "rows root_world = []"
    by (simp_all add: root_world_def fresh_world_def)
  have c: "fst (create_coffee latte abs_png root_world) = Inr (with_id 1 absolute_row)"
    by (simp add: create_coffee_eq p o n absolute_row_def)
  have l: "fst (list_coffees absolute_latte) = [with_id 1 absolute_row]"
    by (simp add: list_coffees_def Coffee_all_def absolute_latte_def create_coffee_eq p o n
        absolute_row_def)
  have i: "image_field absolute_row = ''/uploads/latte.png''"
    by (simp add: absolute_row_def)
  have b: "os_path_basename ''/uploads/latte.png'' = ''latte.png''"
    by (simp add: os_path_basename_def)
  from c l show ?thesis
    by (simp add: i b abs_png_def UPLOAD_DIR_def)
qed

text \<open>
  C4, amended. For every successful create and every list operation, the image field
  in the response is the raw storage path exactly as stored; no rewrite is applied.
  For create the path is the upload directory, a separator and the file name when the
  file name does not start with a separator, and the file name itself when it does.
  A path that does not start with a separator differs from its public URL form.
\<close>

theorem raw_path_in_create_and_list:
  assumes "create_coffee form upload w = (Inr resp, w')"
  shows "image_field resp =
           (if startswith_sep (filename upload) then filename upload
            else UPLOAD_DIR @ ''/'' @ filename upload)
    \<and> (id_field resp, Coffee.truncate resp) \<in> set (rows w')
    \<and> (\<not> startswith_sep (filename upload) \<longrightarrow>
          image_field resp \<noteq> ''/uploads/'' @ os_path_basename (image_field resp))
    \<and> map (\<lambda>r. (id_field r, Coffee.truncate r)) (fst (list_coffees v)) = rows v
    \<and> map image_field (fst (list_coffees v)) = map (\<lambda>p. image_field (snd p)) (rows v)
    \<and> (\<forall>r \<in> set (fst (list_coffees v)).
          \<not> startswith_sep (image_field r) \<longrightarrow>
          image_field r \<noteq> ''/uploads/'' @ os_path_basename (image_field r))"
proof -
  have rel: "\<not> startswith_sep q \<Longrightarrow> q \<noteq> ''/uploads/'' @ os_path_basename q" for q
    by (cases q) (auto simp: startswith_sep_def)
  from assms have ok: "open_wb_ok (os_path_join UPLOAD_DIR (filename upload)) w"
    by (simp add: create_coffee_eq split: if_splits)
  from assms have i: "image_field resp = os_path_join UPLOAD_DIR (filename upload)"
    and m: "(id_field resp, Coffee.truncate resp) \<in> set (rows w')"
    by (auto simp: create_coffee_eq ok)
  have j: "image_field resp =
           (if startswith_sep (filename upload) then filename upload
            else UPLOAD_DIR @ ''/'' @ filename upload)"
    unfolding i by (rule join_upload_dir)
  have k: "\<not> startswith_sep (filename upload) \<longrightarrow>
          image_field resp \<noteq> ''/uploads/'' @ os_path_basename (image_field resp)"
  proof
    assume "\<not> startswith_sep (filename upload)"
    with j have "\<not> startswith_sep (image_field resp)"
      by (simp add: startswith_sep_def UPLOAD_DIR_def)
    then show "image_field resp \<noteq> ''/uploads/'' @ os_path_basename (image_field resp)"
      by (rule rel)
  qed
  have l: "map (\<lambda>r. (id_field r, Coffee.truncate r)) (fst (list_coffees v)) = rows v"
    "map image_field (fst (list_coffees v)) = map (\<lambda>p. image_field (snd p)) (rows v)"
    by (simp_all add: list_coffees_def Coffee_all_def split_def comp_def)
  from j m k l rel show ?thesis by blast
qed

theorem raw_path_in_create_and_list_witness:
  "(\<exists>resp. create_coffee latte latte_png fresh_world = (Inr resp, one_latte)
      \<and> image_field resp = ''uploads/latte.png''
      \<and> image_field resp \<noteq> ''/uploads/'' @ os_path_basename (image_field resp))
   \<and> map image_field (fst (list_coffees one_latte)) = [''uploads/latte.png'']"
proof -
  have p: "os_path_join UPLOAD_DIR (filename latte_png) = ''uploads/latte.png''"
    by (simp add: latte_png_def join_relative startswith_sep_def)
  have c: "create_coffee latte latte_png fresh_world =
      (Inr (with_id 1 latte_row), one_latte)"
    by (simp add: one_latte_def create_coffee_eq p open_latte_png latte_row_def)
       (simp add: fresh_world_def)
  have i: "image_field latte_row = ''uploads/latte.png''"
    by (simp add: latte_row_def)
  from raw_path_in_create_and_list [OF c, of one_latte] c
  show ?thesis
    by (simp add: latte_png_def startswith_sep_def UPLOAD_DIR_def i one_latte_fields)
qed

section \<open>The public URL of an image\<close>

text \<open>
  C3 states that the image field of a get or update response is never the raw storage
  path. A latte posted with a file named \<^verbatim>\<open>/uploads/latte.png\<close>, where \<^verbatim>\<open>/uploads\<close> is
  a directory, is stored with that path, since joining with an absolute name gives the
  name itself, and get-by-id returns the very same string.
\<close>

theorem public_url_counterexample:
  "map_of (rows absolute_latte) 1 = Some absolute_row
   \<and> image_field absolute_row = ''/uploads/latte.png''
   \<and> fst (get_coffee 1 absolute_latte) = Inr (with_id 1 absolute_row)
   \<and> image_field (with_id 1 absolute_row) = ''/uploads/latte.png''"
proof -
  have p: "os_path_join UPLOAD_DIR (filename abs_png) = ''/uploads/latte.png''"
    by (simp add: join_upload_dir abs_png_def startswith_sep_def)
  have o: "open_wb_ok ''/uploads/latte.png'' root_world"
    by (simp add: open_wb_ok_def endswith_sep_def root_world_def child_of_def)
  have r: "rows absolute_latte = [(1, absolute_row)]"
    by (simp add: absolute_latte_def create_coffee_eq p o absolute_row_def)
       (simp add: root_world_def fresh_world_def)
  have i: "image_field absolute_row = ''/uploads/latte.png''"
    by (simp add: absolute_row_def)
  have b: "os_path_basename ''/uploads/latte.png'' = ''latte.png''"
    by (simp add: os_path_basename_def)
  have e: "absolute_row\<lparr>image_field := ''/uploads/latte.png''\<rparr> = absolute_row"
    by (simp add: absolute_row_def CoffeeBase.defs Coffee.defs)
  show ?thesis
    by (simp add: r i get_coffee_def Coffee_get_def b e)
qed

text \<open>
  C3, amended. For every successful get-by-id and update-by-id, the image field of the
  response is \<^verbatim>\<open>/uploads/\<close> followed by the basename of the stored image path (for
  update: the path stored after the update). It equals the stored path exactly when
  the stored path already has the form \<^verbatim>\<open>/uploads/<name>\<close> with no further separator.
\<close>

theorem response_image_is_public_url:
  "(fst (get_coffee i w) = Inr r \<longrightarrow>
     (\<exists>c. map_of (rows w) i = Some c
        \<and> image_field r = ''/uploads/'' @ os_path_basename (image_field c)
        \<and> (image_field r = image_field c)
            = (\<exists>b. image_field c = ''/uploads/'' @ b \<and> CHR ''/'' \<notin> set b)))
   \<and> (fst (update_coffee i req w) = Inr r' \<longrightarrow>
     (\<exists>c. map_of (rows (snd (update_coffee i req w))) i = Some c
        \<and> image_field r' = ''/uploads/'' @ os_path_basename (image_field c)
        \<and> (image_field r' = image_field c)
            = (\<exists>b. image_field c = ''/uploads/'' @ b \<and> CHR ''/'' \<notin> set b)))"
proof (intro conjI impI)
  assume a: "fst (get_coffee i w) = Inr r"
  then obtain c where c: "map_of (rows w) i = Some c"
    by (cases "map_of (rows w) i") (auto simp: get_coffee_def Coffee_get_def)
  with a have r: "image_field r = ''/uploads/'' @ os_path_basename (image_field c)"
    by (auto simp: get_coffee_def Coffee_get_def Let_def)
  have "(image_field r = image_field c)
            = (\<exists>b. image_field c = ''/uploads/'' @ b \<and> CHR ''/'' \<notin> set b)"
    unfolding r by (rule public_url_is_raw_iff)
  with c r show "\<exists>c. map_of (rows w) i = Some c
        \<and> image_field r = ''/uploads/'' @ os_path_basename (image_field c)
        \<and> (image_field r = image_field c)
            = (\<exists>b. image_field c = ''/uploads/'' @ b \<and> CHR ''/'' \<notin> set b)"
    by blast
next
  assume a: "fst (update_coffee i req w) = Inr r'"
  then obtain c0 where c0: "map_of (rows w) i = Some c0"
    by (cases "map_of (rows w) i") (auto simp: update_coffee_def Coffee_get_def)
  define c where "c = (case upd_image req of
            None \<Rightarrow> apply_fields req c0
          | Some u \<Rightarrow> (apply_fields req c0)\<lparr>image_field := os_path_join UPLOAD_DIR (filename u)\<rparr>)"
  have s: "map_of (rows (snd (update_coffee i req w))) i = Some c"
    unfolding c_def by (rule update_coffee_stored [OF c0 a])
  have r: "image_field r' = ''/uploads/'' @ os_path_basename (image_field c)"
    unfolding c_def by (rule update_coffee_response_image [OF c0 a])
  have "(image_field r' = image_field c)
            = (\<exists>b. image_field c = ''/uploads/'' @ b \<and> CHR ''/'' \<notin> set b)"
    unfolding r by (rule public_url_is_raw_iff)
  with s r show "\<exists>c. map_of (rows (snd (update_coffee i req w))) i = Some c
        \<and> image_field r' = ''/uploads/'' @ os_path_basename (image_field c)
        \<and> (image_field r' = image_field c)
            = (\<exists>b. image_field c = ''/uploads/'' @ b \<and> CHR ''/'' \<notin> set b)"
    by blast
qed

theorem response_image_is_public_url_witness:
  "fst (get_coffee 1 one_latte)
     = Inr (with_id 1 (latte_row\<lparr>image_field := ''/uploads/latte.png''\<rparr>))
   \<and> fst (update_coffee 1 only_rate one_latte)
     = Inr (with_id 1 (latte_row\<lparr>rate := 5, image_field := ''/uploads/latte.png''\<rparr>))
   \<and> (\<exists>c. map_of (rows one_latte) 1 = Some c
        \<and> ''/uploads/latte.png'' = ''/uploads/'' @ os_path_basename (image_field c))
   \<and> (\<exists>c. map_of (rows (snd (update_coffee 1 only_rate one_latte))) 1 = Some c
        \<and> ''/uploads/latte.png'' = ''/uploads/'' @ os_path_basename (image_field c))"
proof -
  have row: "map_of (rows one_latte) 1 = Some latte_row"
    by (simp add: one_latte_eq)
  have img: "image_field latte_row = ''uploads/latte.png''"
    by (simp add: latte_row_def)
  have g: "fst (get_coffee 1 one_latte)
     = Inr (with_id 1 (latte_row\<lparr>image_field := ''/uploads/latte.png''\<rparr>))"
    using row by (simp add: get_coffee_def Coffee_get_def img basename_latte)
  have u: "fst (update_coffee 1 only_rate one_latte)
     = Inr (with_id 1 (latte_row\<lparr>rate := 5, image_field := ''/uploads/latte.png''\<rparr>))"
    by (simp add: update_coffee_found [OF row] only_rate_def no_fields_def apply_fields_def
        img basename_latte)
  from response_image_is_public_url
    [of 1 one_latte "with_id 1 (latte_row\<lparr>image_field := ''/uploads/latte.png''\<rparr>)"
        only_rate "with_id 1 (latte_row\<lparr>rate := 5, image_field := ''/uploads/latte.png''\<rparr>)"]
    g u
  show ?thesis by auto
qed

section \<open>Updating\<close>




text \<open>
  C6. For every existing row, an update request with no field and no file leaves the
  table as it was (this row and every other row), and the files and the counter too.
\<close>

theorem empty_update_changes_nothing:
  assumes "map_of (rows w) i = Some c"
  shows "rows (snd (update_coffee i no_fields w)) = rows w
    \<and> files (snd (update_coffee i no_fields w)) = files w
    \<and> next_id (snd (update_coffee i no_fields w)) = next_id w
    \<and> fst (update_coffee i no_fields w)
        = Inr (with_id i (c\<lparr>image_field := ''/uploads/'' @ os_path_basename (image_field c)\<rparr>))"
proof -
  have "upd_image (no_fields :: 'a CoffeeUpdate) = None"
    by (simp add: no_fields_def)
  then show ?thesis
    using assms by (simp add: update_coffee_found [OF assms] table_update_same)
qed

theorem empty_update_changes_nothing_witness:
  "map_of (rows one_latte) 1 = Some latte_row
   \<and> rows (snd (update_coffee 1 no_fields one_latte)) = [(1, latte_row)]
   \<and> files (snd (update_coffee 1 no_fields one_latte)) = files one_latte"
proof -
  have row: "map_of (rows one_latte) 1 = Some latte_row"
    by (simp add: one_latte_eq)
  from empty_update_changes_nothing [OF row] row show ?thesis
    by (simp add: one_latte_eq)
qed

section \<open>Deleting\<close>



section \<open>Identifiers over a process lifetime\<close>

lemma create_coffee_cases:
  obtains (failed) "create_coffee form upload w = (Inl OSError, w)"
  | (created) c where
      "create_coffee form upload w =
         (Inr (with_id (next_id w) c),
          w\<lparr>files := (files w)(os_path_join UPLOAD_DIR (filename upload) \<mapsto> file_bytes upload),
            rows := rows w @ [(next_id w, c)],
            next_id := next_id w + 1,
            trace := trace w @
              [FileWrite (os_path_join UPLOAD_DIR (filename upload)), DbInsert (next_id w)]\<rparr>)"
  by (cases "open_wb_ok (os_path_join UPLOAD_DIR (filename upload)) w")
     (simp_all add: create_coffee_eq)

lemma update_coffee_keys:
  "map fst (rows (snd (update_coffee i req w))) = map fst (rows w)
   \<and> next_id (snd (update_coffee i req w)) = next_id w"
proof (cases "map_of (rows w) i")
  case None
  then show ?thesis by (simp add: update_coffee_def Coffee_get_def)
next
  case (Some c)
  then show ?thesis by (simp add: update_coffee_found [OF Some] split: option.splits)
qed

lemma delete_coffee_keys:
  "map fst (rows (snd (delete_coffee i w))) = filter (\<lambda>j. j \<noteq> i) (map fst (rows w))
   \<and> next_id (snd (delete_coffee i w)) = next_id w"
proof (cases "map_of (rows w) i")
  case None
  then have "i \<notin> set (map fst (rows w))"
    by (simp add: map_of_eq_None_iff)
  then have "filter (\<lambda>j. j \<noteq> i) (map fst (rows w)) = map fst (rows w)"
    by (intro filter_True) auto
  with None show ?thesis by (simp add: delete_coffee_def Coffee_get_def)
next
  case (Some c)
  then show ?thesis
    by (simp add: delete_coffee_def Coffee_get_def Let_def os_path_exists_def os_remove_def
        Coffee_delete_def keys_table_delete)
qed

lemma handle_next_id: "next_id w \<le> next_id (snd (handle q w))"
proof (cases q)
  case (Create form upload)
  then show ?thesis
    by (cases rule: create_coffee_cases [of form upload w]) simp_all
qed (simp_all add: list_coffees_def get_coffee_world update_coffee_keys delete_coffee_keys)

lemma handle_created:
  "fst (handle q w) = Some k \<Longrightarrow> k = next_id w \<and> next_id (snd (handle q w)) = k + 1"
proof (cases q)
  case (Create form upload)
  assume "fst (handle q w) = Some k"
  with Create show ?thesis
    by (cases rule: create_coffee_cases [of form upload w]) auto
qed simp_all

lemma handle_keys:
  "keys_of (snd (handle q w)) \<subseteq> keys_of w \<union> set_option (fst (handle q w))"
proof (cases q)
  case (Create form upload)
  then show ?thesis
    by (cases rule: create_coffee_cases [of form upload w]) (auto simp: keys_of_def)
next
  case (Update i req)
  have "set (map fst (rows (snd (update_coffee i req w)))) = set (map fst (rows w))"
    by (simp only: update_coffee_keys)
  with Update show ?thesis by (simp add: keys_of_def)
next
  case (Delete i)
  have "set (map fst (rows (snd (delete_coffee i w)))) \<subseteq> set (map fst (rows w))"
    by (simp only: delete_coffee_keys) auto
  with Delete show ?thesis by (auto simp: keys_of_def)
qed (auto simp: keys_of_def list_coffees_def get_coffee_world)

lemma handle_invariant:
  assumes "pk_invariant w"
  shows "pk_invariant (snd (handle q w))"
proof (cases q)
  case (Create form upload)
  with assms show ?thesis
    by (cases rule: create_coffee_cases [of form upload w])
       (auto simp: pk_invariant_def keys_of_def)
next
  case ListAll
  with assms show ?thesis by (simp add: list_coffees_def)
next
  case (Get i)
  with assms show ?thesis by (simp add: get_coffee_world)
next
  case (Update i req)
  with assms show ?thesis
    by (simp add: pk_invariant_def keys_of_def update_coffee_keys flip: set_map)
next
  case (Delete i)
  with assms show ?thesis
    by (simp add: pk_invariant_def keys_of_def delete_coffee_keys flip: set_map)
qed

lemma run_invariant: "pk_invariant w \<Longrightarrow> pk_invariant (run qs w)"
  by (induction qs arbitrary: w) (simp_all add: handle_invariant)

lemma created_ids_lower: "k \<in> set (created_ids qs w) \<Longrightarrow> next_id w \<le> k"
proof (induction qs arbitrary: w)
  case Nil
  then show ?case by simp
next
  case (Cons q qs)
  show ?case
  proof (cases "fst (handle q w)")
    case None
    with Cons.prems have "k \<in> set (created_ids qs (snd (handle q w)))"
      by (simp add: split_def)
    from Cons.IH [OF this] handle_next_id [of w q] show ?thesis by simp
  next
    case (Some j)
    from handle_created [OF Some] have j: "j = next_id w" "next_id (snd (handle q w)) = j + 1"
      by simp_all
    from Cons.prems Some have "k = j \<or> k \<in> set (created_ids qs (snd (handle q w)))"
      by (simp add: split_def)
    then show ?thesis
    proof
      assume "k = j" with j show ?thesis by simp
    next
      assume "k \<in> set (created_ids qs (snd (handle q w)))"
      from Cons.IH [OF this] j show ?thesis by simp
    qed
  qed
qed

lemma created_ids_increasing: "sorted_wrt (<) (created_ids qs w)"
proof (induction qs arbitrary: w)
  case Nil
  then show ?case by simp
next
  case (Cons q qs)
  show ?case
  proof (cases "fst (handle q w)")
    case None
    with Cons.IH [of "snd (handle q w)"] show ?thesis by (simp add: split_def)
  next
    case (Some j)
    from handle_created [OF Some] have j: "next_id (snd (handle q w)) = j + 1" by simp
    have "\<forall>k \<in> set (created_ids qs (snd (handle q w))). j < k"
      using created_ids_lower [of _ qs "snd (handle q w)"] j by fastforce
    with Some Cons.IH [of "snd (handle q w)"] show ?thesis by (simp add: split_def)
  qed
qed

lemma run_keys: "keys_of (run qs w) \<subseteq> keys_of w \<union> set (created_ids qs w)"
proof (induction qs arbitrary: w)
  case Nil
  then show ?case by simp
next
  case (Cons q qs)
  have "keys_of (run (q # qs) w) \<subseteq> keys_of (snd (handle q w)) \<union> set (created_ids qs (snd (handle q w)))"
    using Cons.IH [of "snd (handle q w)"] by simp
  also have "\<dots> \<subseteq> keys_of w \<union> set_option (fst (handle q w)) \<union> set (created_ids qs (snd (handle q w)))"
    using handle_keys [of q w] by blast
  also have "\<dots> = keys_of w \<union> set (created_ids (q # qs) w)"
    by (cases "fst (handle q w)") (auto simp: split_def)
  finally show ?case .
qed

lemma lifetime_ids: "created_ids lifetime fresh_world = [1, 2]"
proof -
  have a: "handle (Create latte latte_png) fresh_world = (Some 1, one_latte)"
  proof -
    have p: "os_path_join UPLOAD_DIR (filename latte_png) = ''uploads/latte.png''"
      by (simp add: latte_png_def join_relative startswith_sep_def)
    show ?thesis
      by (simp add: one_latte_def create_coffee_eq p open_latte_png)
         (simp add: fresh_world_def)
  qed
  define w2 where "w2 = snd (delete_coffee 1 one_latte)"
  have b: "handle (Delete 1) one_latte = (None, w2)"
    by (simp add: w2_def)
  have w2: "next_id w2 = 2" "openable w2 = openable fresh_world"
    by (simp_all add: w2_def delete_coffee_def Coffee_get_def one_latte_fields Let_def
        os_path_exists_def os_remove_def Coffee_delete_def)
  have c: "handle (Get 1) w2 = (None, w2)"
    by (simp add: get_coffee_world)
  have d: "handle (Create latte unnamed_png) w2 = (None, w2)"
    using open_unnamed [of w2] by (simp add: create_coffee_eq unnamed_png_def)
  have e: "fst (handle (Create latte mocha_png) w2) = Some 2"
  proof -
    have p: "os_path_join UPLOAD_DIR (filename mocha_png) = ''uploads/mocha.png''"
      by (simp add: mocha_png_def join_relative startswith_sep_def)
    have o: "open_wb_ok ''uploads/mocha.png'' w2"
      by (simp add: open_mocha_png w2 fresh_world_def child_of_def)
    show ?thesis
      by (simp add: create_coffee_eq p o w2)
  qed
  then obtain w3 where e': "handle (Create latte mocha_png) w2 = (Some 2, w3)"
    by (cases "handle (Create latte mocha_png) w2") simp
  show ?thesis
    by (simp only: lifetime_def created_ids.simps a b c d e' prod.case option.case)
qed

text \<open>
  C9. Over any sequence of requests, the identifiers that create returns strictly
  increase in the order of creation, so they are pairwise different; none is the
  identifier of a row that was there before; the rows of the table always have
  different identifiers, each one already there or returned by a create. The
  identifier a create returns is the counter of the storage layer, whatever the
  client sent.
\<close>

theorem identifiers_unique_and_increasing:
  assumes "pk_invariant w"
  shows "sorted_wrt (<) (created_ids qs w)
    \<and> distinct (created_ids qs w)
    \<and> (\<forall>k \<in> set (created_ids qs w). k \<notin> keys_of w)
    \<and> distinct (map fst (rows (run qs w)))
    \<and> keys_of (run qs w) \<subseteq> keys_of w \<union> set (created_ids qs w)
    \<and> (case fst (create_coffee form upload w) of
          Inl e \<Rightarrow> e = OSError
        | Inr r \<Rightarrow> id_field r = next_id w)"
proof -
  have inc: "sorted_wrt (<) (created_ids qs w)" by (rule created_ids_increasing)
  then have "distinct (created_ids qs w)" by (simp add: strict_sorted_iff)
  moreover have "\<forall>k \<in> set (created_ids qs w). k \<notin> keys_of w"
    using assms created_ids_lower [of _ qs w] by (fastforce simp: pk_invariant_def)
  moreover have "distinct (map fst (rows (run qs w)))"
    using run_invariant [OF assms, of qs] by (simp add: pk_invariant_def)
  moreover have "case fst (create_coffee form upload w) of
          Inl e \<Rightarrow> e = OSError
        | Inr r \<Rightarrow> id_field r = next_id w"
    by (simp add: create_coffee_eq)
  ultimately show ?thesis using inc run_keys [of qs w] by simp
qed

theorem identifiers_unique_and_increasing_witness:
  "pk_invariant fresh_world
   \<and> created_ids lifetime fresh_world = [1, 2]
   \<and> sorted_wrt (<) (created_ids lifetime fresh_world)
   \<and> distinct (map fst (rows (run lifetime fresh_world)))"
proof -
  have inv: "pk_invariant fresh_world"
    by (simp add: pk_invariant_def keys_of_def fresh_world_def)
  from identifiers_unique_and_increasing [OF inv, of lifetime] inv lifetime_ids
  show ?thesis by simp
qed

end
